theory Spec2Isabelle
  imports Complex_Main "HOL-Library.Monad_Syntax"
begin

section \<open>Characters and strings\<close>

text \<open>
  A Python \<open>str\<close> is a sequence of code points. A comment is modelled as a \<open>string\<close>,
  a list of \<open>char\<close>, each \<open>char\<close> read as the code point with the same number
  (U+0000 to U+00FF). The character classes below are the ones Python uses on that
  range: \<open>str.isspace\<close> (also the regular expression class \<open>\s\<close> and the separator
  of \<open>str.split()\<close> and \<open>str.strip()\<close>), the class \<open>\w\<close>, \<open>str.isalpha\<close>,
  the cased characters and \<open>str.lower\<close>.
\<close>

definition code :: "char \<Rightarrow> nat" where
  "code c = of_char c"

definition in_range :: "nat \<Rightarrow> nat \<Rightarrow> char \<Rightarrow> bool" where
  "in_range lo hi c = (lo \<le> code c \<and> code c \<le> hi)"

definition isspace_char :: "char \<Rightarrow> bool" where
  "isspace_char c =
     (in_range 0x09 0x0D c \<or> in_range 0x1C 0x20 c \<or> code c = 0x85 \<or> code c = 0xA0)"

definition isupper_char :: "char \<Rightarrow> bool" where
  "isupper_char c = (in_range 0x41 0x5A c \<or> in_range 0xC0 0xD6 c \<or> in_range 0xD8 0xDE c)"

definition islower_char :: "char \<Rightarrow> bool" where
  "islower_char c =
     (in_range 0x61 0x7A c \<or> code c = 0xAA \<or> code c = 0xB5 \<or> code c = 0xBA
      \<or> in_range 0xDF 0xF6 c \<or> in_range 0xF8 0xFF c)"

definition isalpha_char :: "char \<Rightarrow> bool" where
  "isalpha_char c = (isupper_char c \<or> islower_char c)"

definition isword_char :: "char \<Rightarrow> bool" where
  \<comment> \<open>the class \<open>\w\<close>: alphanumeric (letters, digits, other numerics) or underscore\<close>
  "isword_char c =
     (isalpha_char c \<or> in_range 0x30 0x39 c \<or> code c = 0x5F
      \<or> in_range 0xB2 0xB3 c \<or> code c = 0xB9 \<or> in_range 0xBC 0xBE c)"

definition lower_char :: "char \<Rightarrow> char" where
  "lower_char c = (if isupper_char c then char_of (code c + 32) else c)"

definition lower :: "string \<Rightarrow> string" where
  \<comment> \<open>\<open>str.lower()\<close>\<close>
  "lower s = map lower_char s"

definition isupper :: "string \<Rightarrow> bool" where
  \<comment> \<open>\<open>str.isupper()\<close>: at least one cased character, and no lower-case one\<close>
  "isupper s = ((\<exists>c \<in> set s. isupper_char c) \<and> (\<forall>c \<in> set s. \<not> islower_char c))"

definition isalpha :: "string \<Rightarrow> bool" where
  \<comment> \<open>\<open>str.isalpha()\<close>: non-empty and every character a letter\<close>
  "isalpha s = (s \<noteq> [] \<and> (\<forall>c \<in> set s. isalpha_char c))"

definition strip :: "string \<Rightarrow> string" where
  \<comment> \<open>\<open>str.strip()\<close>\<close>
  "strip s = rev (dropWhile isspace_char (rev (dropWhile isspace_char s)))"

fun split_from :: "string \<Rightarrow> string \<Rightarrow> string list" where
  "split_from cur [] = (if cur = [] then [] else [cur])"
| "split_from cur (c # cs) =
     (if isspace_char c then (if cur = [] then split_from [] cs else cur # split_from [] cs)
      else split_from (cur @ [c]) cs)"

definition split :: "string \<Rightarrow> string list" where
  \<comment> \<open>\<open>str.split()\<close> with no argument: the maximal runs of non-whitespace\<close>
  "split s = split_from [] s"

fun join :: "string \<Rightarrow> string list \<Rightarrow> string" where
  \<comment> \<open>\<open>sep.join(ws)\<close>\<close>
  "join sep [] = []"
| "join sep [w] = w"
| "join sep (w # v # ws) = w @ sep @ join sep (v # ws)"

fun startswith :: "string \<Rightarrow> string \<Rightarrow> bool" where
  \<comment> \<open>\<open>s.startswith(p)\<close>, as \<open>startswith p s\<close>\<close>
  "startswith [] s = True"
| "startswith (p # ps) [] = False"
| "startswith (p # ps) (c # cs) = (p = c \<and> startswith ps cs)"

fun contains :: "string \<Rightarrow> string \<Rightarrow> bool" where
  \<comment> \<open>\<open>sub in s\<close>, as \<open>contains sub s\<close>\<close>
  "contains sub [] = (sub = [])"
| "contains sub (c # cs) = (startswith sub (c # cs) \<or> contains sub cs)"

section \<open>Text normalizer: \<open>clean_text\<close>\<close>

text \<open>
  The URL pattern is \<open>http[s]?://\<close> followed by one or more repetitions of an
  alternation. Every alternative but the last matches one character: a letter, a digit,
  a character of the class \<open>[$-_@.&+]\<close> (the range from \<open>$\<close> to \<open>_\<close>, which holds
  \<open>@ . & +\<close> too) or of the class \<open>[!*\\(\\),]\<close>. The last alternative, a percent
  escape, starts with \<open>%\<close>, which the range already matches, so it is never reached.
  The repetition is greedy: it consumes the longest run of such characters.
\<close>

definition url_char :: "char \<Rightarrow> bool" where
  "url_char c = (code c = 0x21 \<or> in_range 0x24 0x5F c \<or> in_range 0x61 0x7A c)"

definition url_match :: "string \<Rightarrow> string option" where
  \<comment> \<open>a match of the URL pattern at the start of the text: the text after the match\<close>
  "url_match s =
     (if startswith ''http'' s then
        (let r = drop 4 s;
             r' = (if startswith ''s'' r then drop 1 r else r)
         in if startswith ''://'' r' \<and> takeWhile url_char (drop 3 r') \<noteq> []
            then Some (dropWhile url_char (drop 3 r'))
            else None)
      else None)"

lemma url_match_shorter: "url_match s = Some t \<Longrightarrow> length t < length s"
proof -
  assume a: "url_match s = Some t"
  have d: "length (dropWhile url_char xs) \<le> length xs" for xs
    by (simp add: length_dropWhile_le)
  from a have h: "startswith ''http'' s"
    by (simp add: url_match_def split: if_splits)
  then have l: "4 \<le> length s"
    by (cases s; cases "tl s"; cases "tl (tl s)"; cases "tl (tl (tl s))") auto
  from a have "t = dropWhile url_char (drop 8 s) \<or> t = dropWhile url_char (drop 7 s)"
    by (auto simp: url_match_def Let_def split: if_splits)
  then have "length t \<le> length s - 7"
    using d [of "drop 8 s"] d [of "drop 7 s"] by auto
  with l show ?thesis by simp
qed

function remove_urls :: "string \<Rightarrow> string" where
  \<comment> \<open>\<open>re.sub(pattern, '', text)\<close>: scan left to right, drop every match\<close>
  "remove_urls [] = []"
| "remove_urls (c # cs) =
     (case url_match (c # cs) of
        Some rest \<Rightarrow> remove_urls rest
      | None \<Rightarrow> c # remove_urls cs)"
  by pat_completeness auto
termination
  by (relation "measure length") (auto dest: url_match_shorter)

definition keep_char :: "char \<Rightarrow> bool" where
  \<comment> \<open>the characters the class \<open>[^\w\s!?.,]\<close> does not match\<close>
  "keep_char c = (isword_char c \<or> isspace_char c \<or> c \<in> set ''!?.,'')"

definition clean_text :: "string \<Rightarrow> string" where
  "clean_text text =
     (if text = [] then []
      else strip (join '' '' (split (filter keep_char (remove_urls text)))))"

section \<open>Arithmetic, counters and the operations that can raise\<close>

text \<open>
  Python's floats are modelled by exact rationals. A function that can raise returns an
  \<open>option\<close>: \<open>None\<close> stands for an exception that leaves the function. An error
  dictionary \<open>{"error": msg}\<close> is a returned value, \<open>Inl\<close> of the error.
\<close>

datatype error =
    NoCommentsProvided
  | NoValidCommentsToAnalyze
  | NoCommentsToAnalyze
  | NoValidCommentsAfterCleaning

fun message :: "error \<Rightarrow> string" where
  "message NoCommentsProvided = ''No comments provided''"
| "message NoValidCommentsToAnalyze = ''No valid comments to analyze''"
| "message NoCommentsToAnalyze = ''No comments to analyze''"
| "message NoValidCommentsAfterCleaning = ''No valid comments after cleaning''"

definition py_div :: "rat \<Rightarrow> rat \<Rightarrow> rat option" where
  \<comment> \<open>\<open>a / b\<close>, which raises ZeroDivisionError when \<open>b\<close> is zero\<close>
  "py_div a b = (if b = 0 then None else Some (a / b))"

definition round_half_even :: "rat \<Rightarrow> int" where
  "round_half_even x =
     (let f = \<lfloor>x\<rfloor>; d = x - of_int f
      in if d < 1 / 2 then f else if 1 / 2 < d then f + 1
         else if even f then f else f + 1)"

definition py_round :: "rat \<Rightarrow> nat \<Rightarrow> rat" where
  \<comment> \<open>\<open>round(x, ndigits)\<close>: to the nearest multiple of \<open>10 ** -ndigits\<close>, ties to even\<close>
  "py_round x ndigits = of_int (round_half_even (x * 10 ^ ndigits)) / 10 ^ ndigits"

fun counter_add :: "'a \<Rightarrow> ('a \<times> nat) list \<Rightarrow> ('a \<times> nat) list" where
  "counter_add x [] = [(x, 1)]"
| "counter_add x ((y, n) # rest) =
     (if x = y then (y, n + 1) # rest else (y, n) # counter_add x rest)"

definition Counter :: "'a list \<Rightarrow> ('a \<times> nat) list" where
  \<comment> \<open>\<open>collections.Counter(xs)\<close>: a dictionary, which keeps the order of first insertion\<close>
  "Counter xs = foldl (\<lambda>m x. counter_add x m) [] xs"

fun max_key :: "('a \<times> nat) list \<Rightarrow> 'a option" where
  \<comment> \<open>\<open>max(counts, key=counts.get)\<close>: the first key of greatest count; ValueError on empty\<close>
  "max_key [] = None"
| "max_key (kv # rest) =
     Some (fst (foldl (\<lambda>best kv'. if snd best < snd kv' then kv' else best) kv rest))"

fun py_max :: "nat list \<Rightarrow> nat option" where
  "py_max [] = None"
| "py_max (x # xs) = Some (foldl max x xs)"

fun py_min :: "nat list \<Rightarrow> nat option" where
  "py_min [] = None"
| "py_min (x # xs) = Some (foldl min x xs)"

definition py_index :: "'a list \<Rightarrow> nat \<Rightarrow> 'a option" where
  \<comment> \<open>\<open>xs[i]\<close> for \<open>i \<ge> 0\<close>, which raises IndexError out of range\<close>
  "py_index xs i = (if i < length xs then Some (xs ! i) else None)"

definition percentage :: "nat \<Rightarrow> nat \<Rightarrow> rat option" where
  \<comment> \<open>\<open>round((count / total) * 100, 2)\<close>\<close>
  "percentage count total_comments =
     do { q \<leftarrow> py_div (of_nat count) (of_nat total_comments); Some (py_round (q * 100) 2) }"

section \<open>The analyzer and its optional backends\<close>

text \<open>
  The fields are what \<open>__init__\<close> and the import probes at module level leave behind.
  \<open>sentiment_analyzer\<close> and \<open>emotion_analyzer\<close> are \<open>None\<close> when the model is not
  loaded; a loaded model answers a text with a label (and a score), or raises, which is
  the answer \<open>None\<close>. \<open>textblob\<close> is the polarity of TextBlob, when it is installed.
  \<open>word_tokenize\<close> is the tokenizer of NLTK, when it is installed; the source calls it
  outside any \<open>try\<close>, and it is taken to return. \<open>wordcloud_renderer\<close> stands for the
  rendering of the image from the stop words and the text, up to the base64 string; it
  is \<open>None\<close> when the libraries are missing, and answers \<open>None\<close> when it raises.
\<close>

record analyzer =
  sentiment_analyzer :: "(string \<Rightarrow> (string \<times> rat) option) option"
  textblob :: "(string \<Rightarrow> rat option) option"
  emotion_analyzer :: "(string \<Rightarrow> string option) option"
  stop_words :: "string set"
  word_tokenize :: "(string \<Rightarrow> string list) option"
  wordcloud_renderer :: "(string set \<Rightarrow> string \<Rightarrow> string option) option"

definition toxic_keywords :: "string list" where
  "toxic_keywords =
     [''hate'', ''stupid'', ''idiot'', ''dumb'', ''trash'', ''garbage'', ''terrible'',
      ''awful'', ''worst'', ''suck'', ''sucks'', ''damn'', ''hell'', ''shut up'']"

definition fallback_stop_words :: "string list" where
  "fallback_stop_words =
     [''the'', ''a'', ''an'', ''and'', ''or'', ''but'', ''in'', ''on'', ''at'', ''to'',
      ''for'', ''of'', ''with'', ''by'']"

definition heuristic_analyzer :: analyzer where
  \<comment> \<open>the analyzer when no optional dependency is installed\<close>
  "heuristic_analyzer =
     \<lparr> sentiment_analyzer = None, textblob = None, emotion_analyzer = None,
       stop_words = set fallback_stop_words, word_tokenize = None,
       wordcloud_renderer = None \<rparr>"

section \<open>Sentiment classifier: \<open>analyze_sentiment\<close>\<close>

definition positive_words :: "string list" where
  "positive_words =
     [''good'', ''great'', ''amazing'', ''awesome'', ''love'', ''like'', ''best'',
      ''excellent'']"

definition negative_words :: "string list" where
  "negative_words =
     [''bad'', ''terrible'', ''awful'', ''hate'', ''worst'', ''sucks'', ''horrible'']"

definition rule_based_sentiment :: "string \<Rightarrow> string \<times> rat" where
  "rule_based_sentiment comment =
     (let comment_lower = lower comment;
          pos_count = length (filter (\<lambda>word. contains word comment_lower) positive_words);
          neg_count = length (filter (\<lambda>word. contains word comment_lower) negative_words)
      in if pos_count > neg_count then (''POSITIVE'', 7 / 10)
         else if neg_count > pos_count then (''NEGATIVE'', 7 / 10)
         else (''NEUTRAL'', 1 / 2))"

definition textblob_sentiment :: "rat \<Rightarrow> string \<times> rat" where
  "textblob_sentiment polarity =
     (if polarity > 1 / 10 then (''POSITIVE'', polarity)
      else if polarity < - (1 / 10) then (''NEGATIVE'', \<bar>polarity\<bar>)
      else (''NEUTRAL'', 1 / 2))"

definition classify_sentiment :: "analyzer \<Rightarrow> string \<Rightarrow> string \<times> rat" where
  \<comment> \<open>the body of the loop: the label and the score appended for one comment\<close>
  "classify_sentiment a comment =
     (case (case sentiment_analyzer a of None \<Rightarrow> None | Some model \<Rightarrow> model (take 512 comment)) of
        Some result \<Rightarrow> result
      | None \<Rightarrow>
          (case (case textblob a of None \<Rightarrow> None | Some blob \<Rightarrow> blob comment) of
             Some polarity \<Rightarrow> textblob_sentiment polarity
           | None \<Rightarrow> rule_based_sentiment comment))"

definition too_short :: "string \<Rightarrow> bool" where
  \<comment> \<open>\<open>len(comment.strip()) < 3\<close>\<close>
  "too_short comment = (length (strip comment) < 3)"

definition scored_sentiments :: "analyzer \<Rightarrow> string list \<Rightarrow> (string \<times> rat) list" where
  \<comment> \<open>the lists \<open>sentiments\<close> and \<open>sentiment_scores\<close> after the loop, zipped\<close>
  "scored_sentiments a comments =
     map (classify_sentiment a) (filter (\<lambda>comment. \<not> too_short comment) comments)"

record sentiment_result =
  sentiment_total_comments :: nat
  sentiment_distribution :: "(string \<times> nat) list"
  sentiment_percentages :: "(string \<times> rat) list"
  average_sentiment_score :: rat
  overall_sentiment :: string

definition percentages :: "(string \<times> nat) list \<Rightarrow> nat \<Rightarrow> (string \<times> rat) list option" where
  \<comment> \<open>\<open>{label: round((count / total) * 100, 2) for label, count in counts.items()}\<close>\<close>
  "percentages counts total_comments =
     those (map (\<lambda>(label, count). map_option (Pair label) (percentage count total_comments))
              counts)"

definition analyze_sentiment :: "analyzer \<Rightarrow> string list \<Rightarrow> (error + sentiment_result) option" where
  "analyze_sentiment a comments =
     (if comments = [] then Some (Inl NoCommentsProvided)
      else
        let sentiments = map fst (scored_sentiments a comments);
            sentiment_scores = map snd (scored_sentiments a comments);
            sentiment_counts = Counter sentiments;
            total_comments = length sentiments
        in if total_comments = 0 then Some (Inl NoValidCommentsToAnalyze)
           else do {
             pcts \<leftarrow> percentages sentiment_counts total_comments;
             avg \<leftarrow> (if sentiment_scores \<noteq> []
                     then map_option (\<lambda>q. py_round q 3)
                            (py_div (sum_list sentiment_scores) (of_nat (length sentiment_scores)))
                     else Some 0);
             overall \<leftarrow> max_key sentiment_counts;
             Some (Inr \<lparr> sentiment_total_comments = total_comments,
                         sentiment_distribution = sentiment_counts,
                         sentiment_percentages = pcts,
                         average_sentiment_score = avg,
                         overall_sentiment = overall \<rparr>) })"

section \<open>Emotion classifier: \<open>analyze_emotions\<close>\<close>

definition any_in :: "string list \<Rightarrow> string \<Rightarrow> bool" where
  \<comment> \<open>\<open>any(word in text for word in words)\<close>\<close>
  "any_in words text = list_ex (\<lambda>word. contains word text) words"

definition rule_based_emotion :: "string \<Rightarrow> string" where
  "rule_based_emotion comment =
     (let comment_lower = lower comment
      in if any_in [''happy'', ''joy'', ''love'', ''great'', ''amazing'', ''wonderful''] comment_lower
           then ''joy''
         else if any_in [''angry'', ''mad'', ''hate'', ''furious'', ''annoyed''] comment_lower
           then ''anger''
         else if any_in [''sad'', ''depressed'', ''upset'', ''disappointed''] comment_lower
           then ''sadness''
         else if any_in [''scared'', ''afraid'', ''terrified'', ''fear''] comment_lower
           then ''fear''
         else if any_in [''surprised'', ''shocked'', ''amazed'', ''wow''] comment_lower
           then ''surprise''
         else ''neutral'')"

definition classify_emotion :: "analyzer \<Rightarrow> string \<Rightarrow> string" where
  "classify_emotion a comment =
     (case (case emotion_analyzer a of None \<Rightarrow> None | Some model \<Rightarrow> model (take 512 comment)) of
        Some emotion \<Rightarrow> emotion
      | None \<Rightarrow> rule_based_emotion comment)"

definition emotions_of :: "analyzer \<Rightarrow> string list \<Rightarrow> string list" where
  \<comment> \<open>the list \<open>emotions\<close> after the loop\<close>
  "emotions_of a comments =
     map (classify_emotion a) (filter (\<lambda>comment. \<not> too_short comment) comments)"

record emotion_result =
  emotion_distribution :: "(string \<times> nat) list"
  emotion_percentages :: "(string \<times> rat) list"
  dominant_emotion :: string

definition analyze_emotions :: "analyzer \<Rightarrow> string list \<Rightarrow> (error + emotion_result) option" where
  "analyze_emotions a comments =
     (if comments = [] then Some (Inl NoCommentsProvided)
      else
        let emotions = emotions_of a comments;
            emotion_counts = Counter emotions;
            total_comments = length emotions
        in if total_comments = 0 then Some (Inl NoValidCommentsToAnalyze)
           else do {
             pcts \<leftarrow> percentages emotion_counts total_comments;
             dominant \<leftarrow> (if emotion_counts \<noteq> [] then max_key emotion_counts
                          else Some ''unknown'');
             Some (Inr \<lparr> emotion_distribution = emotion_counts,
                         emotion_percentages = pcts,
                         dominant_emotion = dominant \<rparr>) })"

section \<open>Toxicity and spam detector: \<open>detect_toxicity\<close>\<close>

record flagged =
  index :: nat
  comment :: string
  reason :: string

definition excerpt :: "string \<Rightarrow> string" where
  \<comment> \<open>\<open>comment[:100] + "..." if len(comment) > 100 else comment\<close>\<close>
  "excerpt c = (if length c > 100 then take 100 c @ ''...'' else c)"

definition is_toxic :: "string \<Rightarrow> bool" where
  "is_toxic c = any_in toxic_keywords (lower c)"

definition spam_reason :: "string \<Rightarrow> string option" where
  \<comment> \<open>the spam check of the loop body: the reason appended, if any\<close>
  "spam_reason c =
     (if length c > 10 then
        (if isupper c \<and> length c > 20 then Some ''All caps''
         else if length (remdups c) < 5 \<and> length c > 15 then Some ''Repetitive characters''
         else None)
      else None)"

definition toxic_flags :: "string list \<Rightarrow> flagged list" where
  \<comment> \<open>the list \<open>toxic_comments\<close> after the loop\<close>
  "toxic_flags comments =
     List.map_filter
       (\<lambda>(i, c). if is_toxic c
          then Some \<lparr> index = i, comment = excerpt c, reason = ''Contains toxic keywords'' \<rparr>
          else None)
       (enumerate 0 comments)"

definition spam_flags :: "string list \<Rightarrow> flagged list" where
  \<comment> \<open>the list \<open>spam_comments\<close> after the loop\<close>
  "spam_flags comments =
     List.map_filter
       (\<lambda>(i, c). map_option (\<lambda>r. \<lparr> index = i, comment = excerpt c, reason = r \<rparr>)
          (spam_reason c))
       (enumerate 0 comments)"

record toxicity_result =
  toxicity_total_comments :: nat
  toxic_comments :: nat
  toxic_percentage :: rat
  spam_comments :: nat
  spam_percentage :: rat
  toxic_examples :: "flagged list"
  spam_examples :: "flagged list"

definition detect_toxicity :: "string list \<Rightarrow> toxicity_result option" where
  "detect_toxicity comments =
     (let total_comments = length comments
      in do {
        tp \<leftarrow> (if total_comments > 0
                then percentage (length (toxic_flags comments)) total_comments else Some 0);
        sp \<leftarrow> (if total_comments > 0
                then percentage (length (spam_flags comments)) total_comments else Some 0);
        Some \<lparr> toxicity_total_comments = total_comments,
               toxic_comments = length (toxic_flags comments),
               toxic_percentage = tp,
               spam_comments = length (spam_flags comments),
               spam_percentage = sp,
               toxic_examples = take 5 (toxic_flags comments),
               spam_examples = take 5 (spam_flags comments) \<rparr> })"

section \<open>Keyword extractor: \<open>extract_keywords\<close>\<close>

record keyword =
  word :: string
  count :: nat

definition tokenize :: "analyzer \<Rightarrow> string \<Rightarrow> string list" where
  \<comment> \<open>\<open>word_tokenize\<close> of NLTK when it is installed, else \<open>str.split()\<close>\<close>
  "tokenize a text = (case word_tokenize a of Some tokenizer \<Rightarrow> tokenizer text | None \<Rightarrow> split text)"

definition keep_word :: "analyzer \<Rightarrow> string \<Rightarrow> bool" where
  "keep_word a w = (isalpha w \<and> length w > 2 \<and> w \<notin> stop_words a)"

definition all_words :: "analyzer \<Rightarrow> string list \<Rightarrow> string list" where
  \<comment> \<open>the list \<open>all_words\<close> after the loop\<close>
  "all_words a comments =
     concat (map (\<lambda>c. filter (keep_word a) (tokenize a (clean_text (lower c)))) comments)"

definition most_common :: "nat \<Rightarrow> ('a \<times> nat) list \<Rightarrow> ('a \<times> nat) list" where
  \<comment> \<open>\<open>Counter.most_common(n)\<close>: a stable sort by descending count, then the first \<open>n\<close>\<close>
  "most_common n counts = take n (sort_key (\<lambda>(w, c). - int c) counts)"

definition extract_keywords :: "analyzer \<Rightarrow> string list \<Rightarrow> nat \<Rightarrow> keyword list" where
  "extract_keywords a comments top_n =
     map (\<lambda>(w, c). \<lparr> word = w, count = c \<rparr>) (most_common top_n (Counter (all_words a comments)))"

definition default_top_n :: nat where
  \<comment> \<open>the default of the parameter \<open>top_n\<close>\<close>
  "default_top_n = 20"

section \<open>Word cloud: \<open>generate_wordcloud\<close>\<close>

definition generate_wordcloud :: "analyzer \<Rightarrow> string list \<Rightarrow> string" where
  "generate_wordcloud a comments =
     (case wordcloud_renderer a of
        None \<Rightarrow> []
      | Some render \<Rightarrow>
          (let text = join '' '' (map clean_text comments)
           in if length (strip text) = 0 then []
              else (case render (stop_words a) text of
                      None \<Rightarrow> []
                    | Some img_str \<Rightarrow> ''data:image/png;base64,'' @ img_str)))"

section \<open>Pattern analyzer: \<open>analyze_comment_patterns\<close>\<close>

record patterns =
  total_comments :: nat
  average_length :: rat
  median_length :: nat
  longest_comment :: nat
  shortest_comment :: nat
  exclamation_percentage :: rat
  question_percentage :: rat
  mention_percentage :: rat

definition count_with :: "char \<Rightarrow> string list \<Rightarrow> nat" where
  \<comment> \<open>\<open>sum(1 for comment in comments if ch in comment)\<close>\<close>
  "count_with ch comments = length (filter (\<lambda>c. ch \<in> set c) comments)"

definition analyze_comment_patterns :: "string list \<Rightarrow> (error + patterns) option" where
  "analyze_comment_patterns comments =
     (if comments = [] then Some (Inl NoCommentsToAnalyze)
      else
        let lengths = map length comments;
            exclamations = count_with (CHR ''!'') comments;
            questions = count_with (CHR ''?'') comments;
            mentions = count_with (CHR ''@'') comments
        in do {
          avg \<leftarrow> (if lengths \<noteq> []
                  then map_option (\<lambda>q. py_round q 2)
                         (py_div (of_nat (sum_list lengths)) (of_nat (length lengths)))
                  else Some 0);
          med \<leftarrow> (if lengths \<noteq> [] then py_index (sort lengths) (length lengths div 2)
                  else Some 0);
          longest \<leftarrow> (if lengths \<noteq> [] then py_max lengths else Some 0);
          shortest \<leftarrow> (if lengths \<noteq> [] then py_min lengths else Some 0);
          ep \<leftarrow> percentage exclamations (length comments);
          qp \<leftarrow> percentage questions (length comments);
          mp \<leftarrow> percentage mentions (length comments);
          Some (Inr \<lparr> total_comments = length comments,
                      average_length = avg,
                      median_length = med,
                      longest_comment = longest,
                      shortest_comment = shortest,
                      exclamation_percentage = ep,
                      question_percentage = qp,
                      mention_percentage = mp \<rparr>) })"

section \<open>Aggregator: \<open>get_comprehensive_analysis\<close>\<close>

record report =
  sentiment_analysis :: "error + sentiment_result"
  emotion_analysis :: "error + emotion_result"
  toxicity_analysis :: toxicity_result
  "keywords" :: "keyword list"
  comment_patterns :: "error + patterns"
  wordcloud :: string

definition cleaned_comments :: "string list \<Rightarrow> string list" where
  \<comment> \<open>\<open>[self.clean_text(comment) for comment in comments if comment.strip()]\<close>\<close>
  "cleaned_comments comments = map clean_text (filter (\<lambda>c. strip c \<noteq> []) comments)"

definition get_comprehensive_analysis :: "analyzer \<Rightarrow> string list \<Rightarrow> (error + report) option" where
  "get_comprehensive_analysis a comments =
     (if comments = [] then Some (Inl NoCommentsProvided)
      else
        let cleaned = cleaned_comments comments
        in if cleaned = [] then Some (Inl NoValidCommentsAfterCleaning)
           else do {
             sa \<leftarrow> analyze_sentiment a cleaned;
             ea \<leftarrow> analyze_emotions a cleaned;
             ta \<leftarrow> detect_toxicity cleaned;
             cp \<leftarrow> analyze_comment_patterns cleaned;
             Some (Inr \<lparr> sentiment_analysis = sa,
                         emotion_analysis = ea,
                         toxicity_analysis = ta,
                         keywords = extract_keywords a cleaned default_top_n,
                         comment_patterns = cp,
                         wordcloud = generate_wordcloud a cleaned \<rparr>) })"

section \<open>The keywords endpoint: \<open>extract_keywords_only\<close>\<close>

text \<open>
  The handler raises an HTTP error inside its own \<open>try\<close>, whose \<open>except\<close> clause
  turns every exception into a response that reports the failure.
\<close>

datatype 'a response = Success 'a | Failure error

definition extract_keywords_only :: "analyzer \<Rightarrow> string list \<Rightarrow> keyword list response" where
  "extract_keywords_only a comments =
     (if comments = [] then Failure NoCommentsProvided
      else
        let cleaned = cleaned_comments comments
        in if cleaned = [] then Failure NoValidCommentsAfterCleaning
           else Success (extract_keywords a cleaned 30))"

section \<open>Notions the properties are stated with\<close>

definition median :: "nat list \<Rightarrow> rat" where
  \<comment> \<open>the median of a non-empty list: the middle element of the sorted list, or the mean
      of the two middle elements when the length is even\<close>
  "median xs =
     (let s = sort xs; n = length xs
      in if odd n then of_nat (s ! (n div 2))
         else (of_nat (s ! (n div 2 - 1)) + of_nat (s ! (n div 2))) / 2)"



section \<open>Facts about strings and cleaning\<close>

lemma set_strip_subset: "set (strip s) \<subseteq> set s"
proof -
  have "set (dropWhile isspace_char (rev (dropWhile isspace_char s))) \<subseteq> set (rev (dropWhile isspace_char s))"
    by (rule set_dropWhileD [THEN subsetI]) 
  also have "\<dots> \<subseteq> set s"
    using set_dropWhileD [of _ isspace_char s] by auto
  finally show ?thesis by (simp add: strip_def)
qed

lemma dropWhile_all_Nil: "(\<forall>c \<in> set (dropWhile P xs). P c) \<Longrightarrow> dropWhile P xs = []"
  using hd_dropWhile [of P xs] by (cases "dropWhile P xs") auto

lemma strip_eq_Nil_iff: "strip s = [] \<longleftrightarrow> (\<forall>c \<in> set s. isspace_char c)"
proof
  assume "strip s = []"
  then have "\<forall>c \<in> set (dropWhile isspace_char s). isspace_char c"
    by (simp add: strip_def)
  then have "dropWhile isspace_char s = []" by (rule dropWhile_all_Nil)
  then show "\<forall>c \<in> set s. isspace_char c" by simp
next
  assume "\<forall>c \<in> set s. isspace_char c"
  then show "strip s = []" by (auto simp: strip_def dest: set_dropWhileD)
qed

lemma split_from_chars: "set (concat (split_from cur s)) \<subseteq> set cur \<union> set s"
proof (induction s arbitrary: cur)
  case Nil
  show ?case by simp
next
  case (Cons a s)
  show ?case using Cons [of "[]"] Cons [of "cur @ [a]"] by auto
qed

lemma split_from_words:
  "(\<forall>c \<in> set cur. \<not> isspace_char c) \<Longrightarrow> w \<in> set (split_from cur s) \<Longrightarrow>
     w \<noteq> [] \<and> (\<forall>c \<in> set w. \<not> isspace_char c)"
proof (induction s arbitrary: cur)
  case Nil
  then show ?case by (auto split: if_splits)
next
  case (Cons a s)
  show ?case
  proof (cases "isspace_char a")
    case True
    with Cons.prems Cons.IH [of "[]"] show ?thesis by (auto split: if_splits)
  next
    case False
    with Cons.prems Cons.IH [of "cur @ [a]"] show ?thesis by auto
  qed
qed

lemma split_words: "w \<in> set (split s) \<Longrightarrow> w \<noteq> [] \<and> (\<forall>c \<in> set w. \<not> isspace_char c)"
  unfolding split_def using split_from_words [of "[]" w s] by simp

lemma split_chars: "set (concat (split s)) \<subseteq> set s"
  unfolding split_def using split_from_chars [of "[]" s] by simp

lemma set_join: "set (join sep ws) \<subseteq> set sep \<union> set (concat ws)"
  by (induction sep ws rule: join.induct) auto

lemma join_hd: "ws \<noteq> [] \<Longrightarrow> set (hd ws) \<subseteq> set (join sep ws)"
  by (induction sep ws rule: join.induct) auto

lemma keep_char_space: "keep_char (CHR '' '')"
  by (simp add: keep_char_def isspace_char_def in_range_def code_def)

lemma clean_text_chars: "c \<in> set (clean_text t) \<Longrightarrow> keep_char c"
proof -
  assume a: "c \<in> set (clean_text t)"
  then have "c \<in> set (join '' '' (split (filter keep_char (remove_urls t))))"
    using set_strip_subset by (auto simp: clean_text_def split: if_splits)
  then have "c = CHR '' '' \<or> c \<in> set (concat (split (filter keep_char (remove_urls t))))"
    using set_join [of "'' ''" "split (filter keep_char (remove_urls t))"] by auto
  then show ?thesis
    using split_chars [of "filter keep_char (remove_urls t)"] keep_char_space by auto
qed

lemma at_not_kept: "\<not> keep_char (CHR ''@'')"
  by (simp add: keep_char_def isword_char_def isalpha_char_def isupper_char_def islower_char_def
      isspace_char_def in_range_def code_def)

lemma clean_text_blank_or_not:
  "clean_text t = [] \<or> strip (clean_text t) \<noteq> []"
proof (cases "split (filter keep_char (remove_urls t))")
  case Nil
  then show ?thesis by (simp add: clean_text_def strip_def)
next
  case (Cons w ws)
  let ?ws = "split (filter keep_char (remove_urls t))"
  from Cons have w: "w \<in> set ?ws" by simp
  from split_words [OF w] obtain c where c: "c \<in> set w" "\<not> isspace_char c"
    by (cases w) auto
  from Cons join_hd [of ?ws "'' ''"] c have j: "c \<in> set (join '' '' ?ws)" by auto
  let ?j = "join '' '' ?ws"
  from j c have 1: "strip ?j \<noteq> []" by (auto simp: strip_eq_Nil_iff)
  have "strip (strip ?j) \<noteq> []"
  proof -
    from 1 have "dropWhile isspace_char (rev (dropWhile isspace_char ?j)) \<noteq> []"
      by (simp add: strip_def)
    then obtain d ds where d: "dropWhile isspace_char (rev (dropWhile isspace_char ?j)) = d # ds"
      by (cases "dropWhile isspace_char (rev (dropWhile isspace_char ?j))") auto
    then have "\<not> isspace_char d" using hd_dropWhile [of isspace_char "rev (dropWhile isspace_char ?j)"] by auto
    moreover have "d \<in> set (strip ?j)" using d by (simp add: strip_def)
    ultimately show ?thesis by (auto simp: strip_eq_Nil_iff)
  qed
  then show ?thesis by (auto simp: clean_text_def)
qed















section \<open>Facts about rounding and counters\<close>



lemma py_round_zero: "py_round 0 n = 0"
  by (simp add: py_round_def round_half_even_def)

lemma percentage_Some:
  "0 < n \<Longrightarrow> percentage c n = Some (py_round (of_nat c / of_nat n * 100) 2)"
  by (simp add: percentage_def py_div_def)

lemma those_map_Some: "those (map (\<lambda>x. Some (f x)) xs) = Some (map f xs)"
  by (induction xs) auto

lemma percentages_Some:
  "0 < n \<Longrightarrow> percentages counts n =
     Some (map (\<lambda>(l, c). (l, py_round (of_nat c / of_nat n * 100) 2)) counts)"
  unfolding percentages_def by (induction counts) (auto simp: percentage_Some)

lemma Counter_snoc: "Counter (xs @ [x]) = counter_add x (Counter xs)"
  by (simp add: Counter_def)

lemma Counter_Nil: "Counter [] = []"
  by (simp add: Counter_def)

lemma counter_add_sum: "sum_list (map snd (counter_add x m)) = Suc (sum_list (map snd m))"
  by (induction x m rule: counter_add.induct) auto

lemma Counter_sum: "sum_list (map snd (Counter xs)) = length xs"
  by (induction xs rule: rev_induct) (auto simp: Counter_snoc Counter_Nil counter_add_sum)

lemma counter_add_keys: "fst ` set (counter_add x m) = insert x (fst ` set m)"
  by (induction x m rule: counter_add.induct) auto

lemma counter_add_distinct: "distinct (map fst m) \<Longrightarrow> distinct (map fst (counter_add x m))"
  by (induction x m rule: counter_add.induct) (auto simp: counter_add_keys)

lemma counter_add_map_of:
  "map_of (counter_add x m) = (map_of m)(x \<mapsto> (case map_of m x of None \<Rightarrow> 1 | Some n \<Rightarrow> n + 1))"
  by (induction x m rule: counter_add.induct) (auto simp: fun_eq_iff)

lemma Counter_keys: "fst ` set (Counter xs) = set xs"
  by (induction xs rule: rev_induct) (auto simp: Counter_snoc Counter_Nil counter_add_keys)

lemma Counter_distinct: "distinct (map fst (Counter xs))"
  by (induction xs rule: rev_induct) (auto simp: Counter_snoc Counter_Nil counter_add_distinct)

lemma Counter_map_of:
  "map_of (Counter xs) w = (if w \<in> set xs then Some (count_list xs w) else None)"
  by (induction xs rule: rev_induct) (auto simp: Counter_snoc Counter_Nil counter_add_map_of)

lemma Counter_member:
  "(w, k) \<in> set (Counter xs) \<longleftrightarrow> w \<in> set xs \<and> k = count_list xs w"
  using map_of_eq_Some_iff [OF Counter_distinct, of xs w k] by (auto simp: Counter_map_of split: if_splits)

lemma Counter_eq_Nil: "Counter xs = [] \<longleftrightarrow> xs = []"
  using Counter_keys [of xs] by (cases "Counter xs") auto

lemma max_key_Some: "counts \<noteq> [] \<Longrightarrow> \<exists>k. max_key counts = Some k"
  by (cases counts) auto

lemma py_index_sort: "xs \<noteq> [] \<Longrightarrow> py_index (sort xs) (length xs div 2) = Some (sort xs ! (length xs div 2))"
  by (simp add: py_index_def)



section \<open>What the passes return\<close>

lemma scored_sentiments_Nil: "scored_sentiments a cs = [] \<longleftrightarrow> list_all too_short cs"
  by (auto simp: scored_sentiments_def filter_empty_conv list_all_iff)

lemma emotions_of_Nil: "emotions_of a cs = [] \<longleftrightarrow> list_all too_short cs"
  by (auto simp: emotions_of_def filter_empty_conv list_all_iff)

lemma analyze_sentiment_none_valid:
  "cs \<noteq> [] \<Longrightarrow> list_all too_short cs \<Longrightarrow> analyze_sentiment a cs = Some (Inl NoValidCommentsToAnalyze)"
  by (simp add: analyze_sentiment_def scored_sentiments_Nil Let_def)

lemma analyze_sentiment_valid:
  assumes "\<not> list_all too_short cs"
  shows "\<exists>ov. max_key (Counter (map fst (scored_sentiments a cs))) = Some ov \<and>
     analyze_sentiment a cs = Some (Inr
       \<lparr> sentiment_total_comments = length (scored_sentiments a cs),
         sentiment_distribution = Counter (map fst (scored_sentiments a cs)),
         sentiment_percentages =
           map (\<lambda>(l, c). (l, py_round (of_nat c / of_nat (length (scored_sentiments a cs)) * 100) 2))
             (Counter (map fst (scored_sentiments a cs))),
         average_sentiment_score =
           py_round (sum_list (map snd (scored_sentiments a cs)) / of_nat (length (scored_sentiments a cs))) 3,
         overall_sentiment = ov \<rparr>)"
proof -
  from assms have ne: "scored_sentiments a cs \<noteq> []" by (simp add: scored_sentiments_Nil)
  then have cs: "cs \<noteq> []" by (auto simp: scored_sentiments_def)
  from ne have "Counter (map fst (scored_sentiments a cs)) \<noteq> []" by (simp add: Counter_eq_Nil)
  then obtain ov where ov: "max_key (Counter (map fst (scored_sentiments a cs))) = Some ov"
    using max_key_Some by blast
  from ne have n: "0 < length (scored_sentiments a cs)" by simp
  show ?thesis
    using ne cs ov n
    by (simp add: analyze_sentiment_def Let_def percentages_Some py_div_def)
qed

lemma analyze_emotions_none_valid:
  "cs \<noteq> [] \<Longrightarrow> list_all too_short cs \<Longrightarrow> analyze_emotions a cs = Some (Inl NoValidCommentsToAnalyze)"
  by (simp add: analyze_emotions_def emotions_of_Nil Let_def)

lemma analyze_emotions_valid:
  assumes "\<not> list_all too_short cs"
  shows "\<exists>d. max_key (Counter (emotions_of a cs)) = Some d \<and>
     analyze_emotions a cs = Some (Inr
       \<lparr> emotion_distribution = Counter (emotions_of a cs),
         emotion_percentages =
           map (\<lambda>(l, c). (l, py_round (of_nat c / of_nat (length (emotions_of a cs)) * 100) 2))
             (Counter (emotions_of a cs)),
         dominant_emotion = d \<rparr>)"
proof -
  from assms have ne: "emotions_of a cs \<noteq> []" by (simp add: emotions_of_Nil)
  then have cs: "cs \<noteq> []" by (auto simp: emotions_of_def)
  from ne have c: "Counter (emotions_of a cs) \<noteq> []" by (simp add: Counter_eq_Nil)
  then obtain d where d: "max_key (Counter (emotions_of a cs)) = Some d"
    using max_key_Some by blast
  from ne have n: "0 < length (emotions_of a cs)" by simp
  show ?thesis
    using ne cs c d n
    by (simp add: analyze_emotions_def Let_def percentages_Some)
qed

lemma analyze_sentiment_returns: "\<exists>r. analyze_sentiment a cs = Some r"
proof (cases "cs = []")
  case True
  then show ?thesis by (simp add: analyze_sentiment_def)
next
  case False
  then show ?thesis
    using analyze_sentiment_none_valid [of cs a] analyze_sentiment_valid [of cs a]
    by (cases "list_all too_short cs") auto
qed

lemma analyze_emotions_returns: "\<exists>r. analyze_emotions a cs = Some r"
proof (cases "cs = []")
  case True
  then show ?thesis by (simp add: analyze_emotions_def)
next
  case False
  then show ?thesis
    using analyze_emotions_none_valid [of cs a] analyze_emotions_valid [of cs a]
    by (cases "list_all too_short cs") auto
qed

lemma detect_toxicity_eq:
  "detect_toxicity cs = Some
     \<lparr> toxicity_total_comments = length cs,
       toxic_comments = length (toxic_flags cs),
       toxic_percentage =
         (if cs = [] then 0 else py_round (of_nat (length (toxic_flags cs)) / of_nat (length cs) * 100) 2),
       spam_comments = length (spam_flags cs),
       spam_percentage =
         (if cs = [] then 0 else py_round (of_nat (length (spam_flags cs)) / of_nat (length cs) * 100) 2),
       toxic_examples = take 5 (toxic_flags cs),
       spam_examples = take 5 (spam_flags cs) \<rparr>"
  by (simp add: detect_toxicity_def Let_def percentage_Some)

lemma foldl_max: "foldl max (x::nat) xs = Max (set (x # xs))"
proof -
  have "(\<lambda>a b. max b a) = (max :: nat \<Rightarrow> nat \<Rightarrow> nat)"
    by (auto simp: fun_eq_iff max.commute)
  then show ?thesis
    unfolding Max.set_eq_fold by (simp add: foldl_conv_fold)
qed

lemma foldl_min: "foldl min (x::nat) xs = Min (set (x # xs))"
proof -
  have "(\<lambda>a b. min b a) = (min :: nat \<Rightarrow> nat \<Rightarrow> nat)"
    by (auto simp: fun_eq_iff min.commute)
  then show ?thesis
    unfolding Min.set_eq_fold by (simp add: foldl_conv_fold)
qed

lemma py_max_eq: "xs \<noteq> [] \<Longrightarrow> py_max xs = Some (Max (set xs))"
  using foldl_max by (cases xs) auto

lemma py_min_eq: "xs \<noteq> [] \<Longrightarrow> py_min xs = Some (Min (set xs))"
  using foldl_min by (cases xs) auto

lemma analyze_comment_patterns_eq:
  "cs \<noteq> [] \<Longrightarrow> analyze_comment_patterns cs = Some (Inr
     \<lparr> total_comments = length cs,
       average_length = py_round (of_nat (sum_list (map length cs)) / of_nat (length cs)) 2,
       median_length = sort (map length cs) ! (length cs div 2),
       longest_comment = Max (set (map length cs)),
       shortest_comment = Min (set (map length cs)),
       exclamation_percentage = py_round (of_nat (count_with (CHR ''!'') cs) / of_nat (length cs) * 100) 2,
       question_percentage = py_round (of_nat (count_with (CHR ''?'') cs) / of_nat (length cs) * 100) 2,
       mention_percentage = py_round (of_nat (count_with (CHR ''@'') cs) / of_nat (length cs) * 100) 2 \<rparr>)"
  using py_max_eq [of "map length cs"] py_min_eq [of "map length cs"]
  by (simp add: analyze_comment_patterns_def Let_def percentage_Some py_div_def py_index_def)

lemma get_comprehensive_analysis_eq:
  assumes "cleaned_comments cs \<noteq> []"
  shows "\<exists>sa ea ta cp.
     analyze_sentiment a (cleaned_comments cs) = Some sa \<and>
     analyze_emotions a (cleaned_comments cs) = Some ea \<and>
     detect_toxicity (cleaned_comments cs) = Some ta \<and>
     analyze_comment_patterns (cleaned_comments cs) = Some cp \<and>
     get_comprehensive_analysis a cs = Some (Inr
       \<lparr> sentiment_analysis = sa, emotion_analysis = ea, toxicity_analysis = ta,
         keywords = extract_keywords a (cleaned_comments cs) default_top_n,
         comment_patterns = cp,
         wordcloud = generate_wordcloud a (cleaned_comments cs) \<rparr>)"
proof -
  from assms have cs: "cs \<noteq> []" by (auto simp: cleaned_comments_def)
  obtain sa where sa: "analyze_sentiment a (cleaned_comments cs) = Some sa"
    using analyze_sentiment_returns by blast
  obtain ea where ea: "analyze_emotions a (cleaned_comments cs) = Some ea"
    using analyze_emotions_returns by blast
  obtain ta where ta: "detect_toxicity (cleaned_comments cs) = Some ta"
    using detect_toxicity_eq by blast
  obtain cp where cp: "analyze_comment_patterns (cleaned_comments cs) = Some cp"
    using analyze_comment_patterns_eq [OF assms] by blast
  show ?thesis using assms cs sa ea ta cp
    by (simp add: get_comprehensive_analysis_def Let_def)
qed


section \<open>The example of the two comments\<close>

lemma example_love_hate:
  "get_comprehensive_analysis heuristic_analyzer [''I love this!!'', ''I HATE THIS SO MUCH''] =
   Some (Inr
     \<lparr> sentiment_analysis = Inr
         \<lparr> sentiment_total_comments = 2,
           sentiment_distribution = [(''POSITIVE'', 1), (''NEGATIVE'', 1)],
           sentiment_percentages = [(''POSITIVE'', 50), (''NEGATIVE'', 50)],
           average_sentiment_score = 7 / 10,
           overall_sentiment = ''POSITIVE'' \<rparr>,
       emotion_analysis = Inr
         \<lparr> emotion_distribution = [(''joy'', 1), (''anger'', 1)],
           emotion_percentages = [(''joy'', 50), (''anger'', 50)],
           dominant_emotion = ''joy'' \<rparr>,
       toxicity_analysis =
         \<lparr> toxicity_total_comments = 2, toxic_comments = 1, toxic_percentage = 50,
           spam_comments = 0, spam_percentage = 0,
           toxic_examples =
             [\<lparr> index = 1, comment = ''I HATE THIS SO MUCH'',
                reason = ''Contains toxic keywords'' \<rparr>],
           spam_examples = [] \<rparr>,
       keywords =
         [\<lparr> word = ''love'', count = 1 \<rparr>, \<lparr> word = ''hate'', count = 1 \<rparr>,
          \<lparr> word = ''this'', count = 1 \<rparr>, \<lparr> word = ''much'', count = 1 \<rparr>],
       comment_patterns = Inr
         \<lparr> total_comments = 2, average_length = 16, median_length = 19,
           longest_comment = 19, shortest_comment = 13, exclamation_percentage = 50,
           question_percentage = 0, mention_percentage = 0 \<rparr>,
       wordcloud = [] \<rparr>)"
  by code_simp

text \<open>
  Claim C1, as the specification states it: with the rule-based fallback alone, the
  pipeline on \<open>["I love this!!", "I HATE THIS SO MUCH"]\<close> yields the sentiment
  distribution \<open>{POSITIVE: 1, NEGATIVE: 1}\<close> and an exclamation percentage of 100.
  It fails: no report of that run has both.
\<close>

theorem love_hate_exclamation_not_100:
  "\<not> (\<exists>r s p.
        get_comprehensive_analysis heuristic_analyzer [''I love this!!'', ''I HATE THIS SO MUCH'']
          = Some (Inr r)
        \<and> sentiment_analysis r = Inr s
        \<and> sentiment_distribution s = [(''POSITIVE'', 1), (''NEGATIVE'', 1)]
        \<and> comment_patterns r = Inr p
        \<and> exclamation_percentage p = 100)"
  by (auto simp: example_love_hate)

text \<open>
  Claim C1, amended: with the rule-based fallback alone, the pipeline on
  \<open>["I love this!!", "I HATE THIS SO MUCH"]\<close> yields the sentiment distribution
  \<open>{POSITIVE: 1, NEGATIVE: 1}\<close> and an exclamation percentage of 50: one of the two
  cleaned comments contains an exclamation mark.
\<close>

theorem love_hate_report:
  "\<exists>r s p.
     get_comprehensive_analysis heuristic_analyzer [''I love this!!'', ''I HATE THIS SO MUCH'']
       = Some (Inr r)
     \<and> sentiment_analysis r = Inr s
     \<and> sentiment_distribution s = [(''POSITIVE'', 1), (''NEGATIVE'', 1)]
     \<and> comment_patterns r = Inr p
     \<and> exclamation_percentage p = 50
     \<and> count_with (CHR ''!'') (cleaned_comments [''I love this!!'', ''I HATE THIS SO MUCH'']) = 1"
  by (simp add: example_love_hate) code_simp

theorem love_hate_report_witness:
  "count_with (CHR ''!'') (cleaned_comments [''I love this!!'', ''I HATE THIS SO MUCH'']) = 1"
  using love_hate_report by blast

section \<open>The aggregator on comments that cleaning empties\<close>

lemma example_at_signs:
  "get_comprehensive_analysis heuristic_analyzer [''@@@''] =
   Some (Inr
     \<lparr> sentiment_analysis = Inl NoValidCommentsToAnalyze,
       emotion_analysis = Inl NoValidCommentsToAnalyze,
       toxicity_analysis =
         \<lparr> toxicity_total_comments = 1, toxic_comments = 0, toxic_percentage = 0,
           spam_comments = 0, spam_percentage = 0, toxic_examples = [], spam_examples = [] \<rparr>,
       keywords = [],
       comment_patterns = Inr
         \<lparr> total_comments = 1, average_length = 0, median_length = 0,
           longest_comment = 0, shortest_comment = 0, exclamation_percentage = 0,
           question_percentage = 0, mention_percentage = 0 \<rparr>,
       wordcloud = [] \<rparr>)"
  by code_simp

lemma get_comprehensive_analysis_Inr:
  "get_comprehensive_analysis a cs = Some (Inr r) \<Longrightarrow> cleaned_comments cs \<noteq> []"
  by (auto simp: get_comprehensive_analysis_def Let_def split: if_splits)

lemma count_with_none: "(\<forall>c \<in> set cs. ch \<notin> set c) \<Longrightarrow> count_with ch cs = 0"
  by (simp add: count_with_def)

text \<open>
  Claim C10: whenever \<open>get_comprehensive_analysis\<close> returns a report, the mention
  percentage of its pattern statistics is 0, because cleaning removes every \<open>@\<close>
  before the pattern analyzer runs: no cleaned comment contains one.
\<close>

theorem mention_percentage_zero:
  assumes "get_comprehensive_analysis a cs = Some (Inr r)"
  shows "(\<forall>c \<in> set (cleaned_comments cs). CHR ''@'' \<notin> set c)
         \<and> (\<exists>p. comment_patterns r = Inr p \<and> mention_percentage p = 0)"
proof -
  have at: "\<forall>c \<in> set (cleaned_comments cs). CHR ''@'' \<notin> set c"
    using clean_text_chars at_not_kept by (auto simp: cleaned_comments_def)
  from assms have ne: "cleaned_comments cs \<noteq> []" by (rule get_comprehensive_analysis_Inr)
  from get_comprehensive_analysis_eq [OF ne, of a] assms
  have "analyze_comment_patterns (cleaned_comments cs) = Some (comment_patterns r)" by auto
  with analyze_comment_patterns_eq [OF ne] count_with_none [OF at]
  have "\<exists>p. comment_patterns r = Inr p \<and> mention_percentage p = 0"
    by (auto simp: py_round_zero)
  with at show ?thesis by simp
qed

theorem mention_percentage_zero_witness:
  "\<exists>r p. get_comprehensive_analysis heuristic_analyzer [''@@@''] = Some (Inr r)
         \<and> comment_patterns r = Inr p \<and> mention_percentage p = 0"
  using mention_percentage_zero [OF example_at_signs] example_at_signs by simp

text \<open>
  Claim C2, as the specification states it: every comment handed to the sub-analyses
  is a non-blank cleaned string. It fails: the comment \<open>@@@\<close> is not blank, so it
  passes the filter; cleaning then empties it, and the empty string is handed on in a
  report, with no error.
\<close>

theorem blank_comment_handed_on:
  "cleaned_comments [''@@@''] = [[]] \<and> strip [] = []
   \<and> (\<exists>r. get_comprehensive_analysis heuristic_analyzer [''@@@''] = Some (Inr r))"
proof -
  have "cleaned_comments [''@@@''] = [[]]" by code_simp
  moreover have "strip [] = []" by (simp add: strip_def)
  ultimately show ?thesis using example_at_signs by simp
qed

text \<open>
  Claim C2, amended: \<open>get_comprehensive_analysis\<close> returns an error for the empty
  list, discards the blank input comments, cleans the others, returns an error when
  none is left, and otherwise runs every sub-analysis on the list of the cleaned
  comments. Each comment handed on is the cleaned form of a non-blank input comment,
  and is either empty or non-blank.
\<close>

theorem cleaned_comments_handed_on:
  "get_comprehensive_analysis a [] = Some (Inl NoCommentsProvided)
   \<and> (cs \<noteq> [] \<and> cleaned_comments cs = [] \<longrightarrow>
        get_comprehensive_analysis a cs = Some (Inl NoValidCommentsAfterCleaning))
   \<and> (cleaned_comments cs \<noteq> [] \<longrightarrow>
        (\<exists>r. get_comprehensive_analysis a cs = Some (Inr r)
           \<and> analyze_sentiment a (cleaned_comments cs) = Some (sentiment_analysis r)
           \<and> analyze_emotions a (cleaned_comments cs) = Some (emotion_analysis r)
           \<and> detect_toxicity (cleaned_comments cs) = Some (toxicity_analysis r)
           \<and> keywords r = extract_keywords a (cleaned_comments cs) default_top_n
           \<and> analyze_comment_patterns (cleaned_comments cs) = Some (comment_patterns r)
           \<and> wordcloud r = generate_wordcloud a (cleaned_comments cs)))
   \<and> cleaned_comments cs = map clean_text (filter (\<lambda>c. strip c \<noteq> []) cs)
   \<and> (\<forall>c \<in> set (cleaned_comments cs). c = [] \<or> strip c \<noteq> [])"
proof -
  have 1: "get_comprehensive_analysis a [] = Some (Inl NoCommentsProvided)"
    by (simp add: get_comprehensive_analysis_def)
  have 2: "cs \<noteq> [] \<and> cleaned_comments cs = [] \<longrightarrow>
        get_comprehensive_analysis a cs = Some (Inl NoValidCommentsAfterCleaning)"
    by (simp add: get_comprehensive_analysis_def)
  have 3: "cleaned_comments cs \<noteq> [] \<longrightarrow>
        (\<exists>r. get_comprehensive_analysis a cs = Some (Inr r)
           \<and> analyze_sentiment a (cleaned_comments cs) = Some (sentiment_analysis r)
           \<and> analyze_emotions a (cleaned_comments cs) = Some (emotion_analysis r)
           \<and> detect_toxicity (cleaned_comments cs) = Some (toxicity_analysis r)
           \<and> keywords r = extract_keywords a (cleaned_comments cs) default_top_n
           \<and> analyze_comment_patterns (cleaned_comments cs) = Some (comment_patterns r)
           \<and> wordcloud r = generate_wordcloud a (cleaned_comments cs))"
  proof
    assume "cleaned_comments cs \<noteq> []"
    from get_comprehensive_analysis_eq [OF this, of a] show "\<exists>r. get_comprehensive_analysis a cs = Some (Inr r)
           \<and> analyze_sentiment a (cleaned_comments cs) = Some (sentiment_analysis r)
           \<and> analyze_emotions a (cleaned_comments cs) = Some (emotion_analysis r)
           \<and> detect_toxicity (cleaned_comments cs) = Some (toxicity_analysis r)
           \<and> keywords r = extract_keywords a (cleaned_comments cs) default_top_n
           \<and> analyze_comment_patterns (cleaned_comments cs) = Some (comment_patterns r)
           \<and> wordcloud r = generate_wordcloud a (cleaned_comments cs)"
      by auto
  qed
  have 4: "cleaned_comments cs = map clean_text (filter (\<lambda>c. strip c \<noteq> []) cs)"
    by (simp add: cleaned_comments_def)
  have 5: "\<forall>c \<in> set (cleaned_comments cs). c = [] \<or> strip c \<noteq> []"
    using clean_text_blank_or_not by (auto simp: cleaned_comments_def)
  from 1 2 3 4 5 show ?thesis by blast
qed

theorem cleaned_comments_handed_on_witness:
  "cleaned_comments [''  '', ''@@@'', ''hi   @you''] = ['''', ''hi you'']
   \<and> (\<exists>r. get_comprehensive_analysis heuristic_analyzer [''  '', ''@@@'', ''hi   @you''] = Some (Inr r)
          \<and> analyze_comment_patterns ['''', ''hi you''] = Some (comment_patterns r))
   \<and> list_all (\<lambda>c. c = [] \<or> strip c \<noteq> []) ['''', ''hi you'']"
proof -
  have e: "cleaned_comments [''  '', ''@@@'', ''hi   @you''] = ['''', ''hi you'']" by code_simp
  show ?thesis
    using cleaned_comments_handed_on [of heuristic_analyzer "[''  '', ''@@@'', ''hi   @you'']"]
    unfolding e by (auto simp: list_all_iff)
qed



section \<open>Percentages of a distribution\<close>


lemma analyze_sentiment_Inr:
  "analyze_sentiment a cs = Some (Inr s) \<Longrightarrow> \<not> list_all too_short cs"
  using analyze_sentiment_none_valid [of cs a]
  by (cases "cs = []") (auto simp: analyze_sentiment_def)

lemma analyze_emotions_Inr:
  "analyze_emotions a cs = Some (Inr e) \<Longrightarrow> \<not> list_all too_short cs"
  using analyze_emotions_none_valid [of cs a]
  by (cases "cs = []") (auto simp: analyze_emotions_def)




section \<open>The spam rule\<close>

lemma spam_reason_iff:
  "spam_reason c \<noteq> None \<longleftrightarrow>
     (isupper c \<and> length c > 20) \<or> (card (set c) < 5 \<and> length c > 15)"
  by (auto simp: spam_reason_def List.card_set)

lemma set_map_filter: "set (List.map_filter g xs) = {y. \<exists>x \<in> set xs. g x = Some y}"
  by (induction xs) (auto simp: List.map_filter_simps split: option.splits)

lemma set_spam_flags:
  "set (spam_flags cs) =
     {\<lparr> index = i, comment = excerpt (cs ! i), reason = r \<rparr> | i r.
        i < length cs \<and> spam_reason (cs ! i) = Some r}"
proof (intro set_eqI iffI)
  fix f
  assume "f \<in> set (spam_flags cs)"
  then show "f \<in> {\<lparr> index = i, comment = excerpt (cs ! i), reason = r \<rparr> | i r.
        i < length cs \<and> spam_reason (cs ! i) = Some r}"
    by (auto simp: spam_flags_def set_map_filter in_set_enumerate_eq)
next
  fix f
  assume "f \<in> {\<lparr> index = i, comment = excerpt (cs ! i), reason = r \<rparr> | i r.
        i < length cs \<and> spam_reason (cs ! i) = Some r}"
  then obtain i r where f: "f = \<lparr> index = i, comment = excerpt (cs ! i), reason = r \<rparr>"
    and i: "i < length cs" and r: "spam_reason (cs ! i) = Some r"
    by blast
  from i have "(i, cs ! i) \<in> set (enumerate 0 cs)" by (simp add: in_set_enumerate_eq)
  with f r show "f \<in> set (spam_flags cs)"
    unfolding spam_flags_def set_map_filter by force
qed

lemma length_map_filter: "length (List.map_filter g xs) = length (filter (\<lambda>x. g x \<noteq> None) xs)"
  by (simp add: List.map_filter_def)

lemma length_filter_snd_enumerate:
  "length (filter (\<lambda>p. P (snd p)) (enumerate n cs)) = length (filter P cs)"
  by (induction cs arbitrary: n) auto

lemma length_spam_flags:
  "length (spam_flags cs) = length (filter (\<lambda>c. spam_reason c \<noteq> None) cs)"
proof -
  have "length (spam_flags cs)
        = length (filter (\<lambda>p. spam_reason (snd p) \<noteq> None) (enumerate 0 cs))"
    by (simp add: spam_flags_def length_map_filter case_prod_beta)
  then show ?thesis
    using length_filter_snd_enumerate [of "\<lambda>c. spam_reason c \<noteq> None" 0 cs] by simp
qed

lemma remdups_replicate_Suc: "remdups (replicate (Suc n) x) = [x]"
  by (induction n) auto

text \<open>
  Claim C5: the detector flags a comment as spam if and only if it is fully upper-case
  and longer than 20 characters, or has fewer than 5 distinct characters and is longer
  than 15 characters. The flags of a list are those of its comments that meet the rule,
  each with its position; the result counts them and shows the first five. A comment of
  16 identical characters is flagged for repetitive characters, and an all-caps comment
  longer than 20 characters for all caps, as the two examples of the specification are.
\<close>

theorem spam_rule:
  "(spam_reason c \<noteq> None \<longleftrightarrow>
      (isupper c \<and> length c > 20) \<or> (card (set c) < 5 \<and> length c > 15))
   \<and> set (spam_flags cs) =
       {\<lparr> index = i, comment = excerpt (cs ! i), reason = r \<rparr> | i r.
          i < length cs \<and> spam_reason (cs ! i) = Some r}
   \<and> (\<exists>t. detect_toxicity cs = Some t
          \<and> spam_comments t = length (filter (\<lambda>c. spam_reason c \<noteq> None) cs)
          \<and> spam_examples t = take 5 (spam_flags cs))
   \<and> spam_reason (replicate 16 x) = Some ''Repetitive characters''
   \<and> (isupper c \<and> length c > 20 \<longrightarrow> spam_reason c = Some ''All caps'')
   \<and> spam_flags [''aaaaaaaaaaaaaaaa''] =
       [\<lparr> index = 0, comment = ''aaaaaaaaaaaaaaaa'', reason = ''Repetitive characters'' \<rparr>]
   \<and> spam_flags [''THIS IS DEFINITELY SPAM TEXT''] =
       [\<lparr> index = 0, comment = ''THIS IS DEFINITELY SPAM TEXT'', reason = ''All caps'' \<rparr>]"
proof -
  have 3: "\<exists>t. detect_toxicity cs = Some t
          \<and> spam_comments t = length (filter (\<lambda>c. spam_reason c \<noteq> None) cs)
          \<and> spam_examples t = take 5 (spam_flags cs)"
    by (simp add: detect_toxicity_eq length_spam_flags)
  have r: "remdups (replicate 16 x) = [x]"
    using remdups_replicate_Suc [of 15 x] by simp
  have 4: "spam_reason (replicate 16 x) = Some ''Repetitive characters''"
    by (simp add: spam_reason_def r)
  have 5: "isupper c \<and> length c > 20 \<longrightarrow> spam_reason c = Some ''All caps''"
    by (simp add: spam_reason_def)
  have 6: "spam_flags [''aaaaaaaaaaaaaaaa''] =
       [\<lparr> index = 0, comment = ''aaaaaaaaaaaaaaaa'', reason = ''Repetitive characters'' \<rparr>]"
    by code_simp
  have 7: "spam_flags [''THIS IS DEFINITELY SPAM TEXT''] =
       [\<lparr> index = 0, comment = ''THIS IS DEFINITELY SPAM TEXT'', reason = ''All caps'' \<rparr>]"
    by code_simp
  from spam_reason_iff set_spam_flags 3 4 5 6 7 show ?thesis by blast
qed

theorem spam_rule_witness:
  "isupper ''THIS IS DEFINITELY SPAM TEXT''
   \<and> spam_reason ''THIS IS DEFINITELY SPAM TEXT'' = Some ''All caps''
   \<and> spam_reason ''aaaaaaaaaaaaaaaa'' = Some ''Repetitive characters''
   \<and> spam_reason ''This Is Not Upper Case, Nor Monotonous'' = None"
proof -
  have u: "isupper ''THIS IS DEFINITELY SPAM TEXT''" by code_simp
  have l: "length ''THIS IS DEFINITELY SPAM TEXT'' > 20" by simp
  have n: "\<not> isupper ''This Is Not Upper Case, Nor Monotonous''" by code_simp
  have k: "\<not> card (set ''This Is Not Upper Case, Nor Monotonous'') < 5" by code_simp
  have e: "''aaaaaaaaaaaaaaaa'' = replicate 16 (CHR ''a'')" by code_simp
  from spam_rule [of "''THIS IS DEFINITELY SPAM TEXT''" "[]" "CHR ''a''"] u l
  have 1: "spam_reason ''THIS IS DEFINITELY SPAM TEXT'' = Some ''All caps''" by blast
  from spam_rule [of "''This Is Not Upper Case, Nor Monotonous''" "[]" "CHR ''a''"] n k
  have 2: "spam_reason ''This Is Not Upper Case, Nor Monotonous'' = None" by blast
  from spam_rule [of "[]" "[]" "CHR ''a''"] e
  have 3: "spam_reason ''aaaaaaaaaaaaaaaa'' = Some ''Repetitive characters''" by metis
  from u 1 2 3 show ?thesis by blast
qed

section \<open>The length statistics\<close>

lemma median_length_odd:
  assumes "odd (length cs)" and "analyze_comment_patterns cs = Some (Inr p)"
  shows "of_nat (median_length p) = median (map length cs)"
proof -
  from assms(1) have "cs \<noteq> []" by auto
  from analyze_comment_patterns_eq [OF this] assms show ?thesis
    by (auto simp: median_def Let_def)
qed

text \<open>
  Claim C6: the pattern analyzer returns the mean, median, minimum and maximum of the
  comment lengths. On the two comments \<open>a\<close> and \<open>abc\<close>, of lengths 1 and 3, the
  analyzer returns 3 as \<open>median_length\<close>, the element at index \<open>len // 2\<close> of the
  sorted lengths, where the median of the lengths is 2.
\<close>

theorem median_length_of_two:
  "analyze_comment_patterns [''a'', ''abc''] = Some (Inr
     \<lparr> total_comments = 2, average_length = 2, median_length = 3,
       longest_comment = 3, shortest_comment = 1, exclamation_percentage = 0,
       question_percentage = 0, mention_percentage = 0 \<rparr>)
   \<and> median (map length [''a'', ''abc'']) = 2"
  by code_simp

theorem median_length_of_two_witness:
  "map_option (map_sum id median_length) (analyze_comment_patterns [''a'', ''abc''])
     = Some (Inr 3)
   \<and> median (map length [''a'', ''abc'']) = 2"
proof -
  have "analyze_comment_patterns [''a'', ''abc''] = Some (Inr
     \<lparr> total_comments = 2, average_length = 2, median_length = 3,
       longest_comment = 3, shortest_comment = 1, exclamation_percentage = 0,
       question_percentage = 0, mention_percentage = 0 \<rparr>)"
    using median_length_of_two by (rule conjunct1)
  then have 1: "map_option (map_sum id median_length) (analyze_comment_patterns [''a'', ''abc''])
     = Some (Inr 3)"
    by simp
  have 2: "median (map length [''a'', ''abc'']) = 2"
    using median_length_of_two by (rule conjunct2)
  from 1 2 show ?thesis by (rule conjI)
qed

section \<open>Short comments\<close>

lemma count_with_insert:
  "count_with ch (xs @ c # ys) = count_with ch (xs @ ys) + (if ch \<in> set c then 1 else 0)"
  by (simp add: count_with_def)

text \<open>
  Claim C7: a comment whose trimmed length is under 3 characters is excluded from the
  sentiment and emotion tallies: the labels tallied for a list are those tallied for
  the list without that comment, and so are the results of the two passes when other
  comments remain. The pattern analyzer still counts it: in the number of comments, in
  the shortest, longest, mean and middle length, and in the three punctuation
  percentages. In a report of the pipeline, the pattern statistics count every cleaned
  comment, and the sentiment and emotion tallies count those that are not too short.
\<close>

theorem short_comment_tallies:
  assumes "too_short c"
  shows "scored_sentiments a (xs @ c # ys) = scored_sentiments a (xs @ ys)
   \<and> emotions_of a (xs @ c # ys) = emotions_of a (xs @ ys)
   \<and> (xs @ ys \<noteq> [] \<longrightarrow>
        analyze_sentiment a (xs @ c # ys) = analyze_sentiment a (xs @ ys)
        \<and> analyze_emotions a (xs @ c # ys) = analyze_emotions a (xs @ ys))
   \<and> (\<exists>p. analyze_comment_patterns (xs @ c # ys) = Some (Inr p)
          \<and> total_comments p = length (xs @ ys) + 1
          \<and> shortest_comment p \<le> length c \<and> length c \<le> longest_comment p
          \<and> average_length p =
              py_round (of_nat (sum_list (map length (xs @ ys)) + length c)
                          / of_nat (length (xs @ ys) + 1)) 2
          \<and> median_length p =
              sort (map length (xs @ c # ys)) ! (length (xs @ c # ys) div 2)
          \<and> exclamation_percentage p =
              py_round (of_nat (count_with (CHR ''!'') (xs @ ys) + (if CHR ''!'' \<in> set c then 1 else 0))
                          / of_nat (length (xs @ ys) + 1) * 100) 2
          \<and> question_percentage p =
              py_round (of_nat (count_with (CHR ''?'') (xs @ ys) + (if CHR ''?'' \<in> set c then 1 else 0))
                          / of_nat (length (xs @ ys) + 1) * 100) 2
          \<and> mention_percentage p =
              py_round (of_nat (count_with (CHR ''@'') (xs @ ys) + (if CHR ''@'' \<in> set c then 1 else 0))
                          / of_nat (length (xs @ ys) + 1) * 100) 2)
   \<and> (\<forall>r. get_comprehensive_analysis a cs = Some (Inr r) \<longrightarrow>
        (\<exists>p. comment_patterns r = Inr p
           \<and> total_comments p = length (cleaned_comments cs))
        \<and> (\<forall>s. sentiment_analysis r = Inr s \<longrightarrow>
             sentiment_total_comments s
               = length (filter (\<lambda>c. \<not> too_short c) (cleaned_comments cs)))
        \<and> (\<forall>e. emotion_analysis r = Inr e \<longrightarrow>
             sum_list (map snd (emotion_distribution e))
               = length (filter (\<lambda>c. \<not> too_short c) (cleaned_comments cs))))"
proof -
  have pipeline: "\<forall>r. get_comprehensive_analysis a cs = Some (Inr r) \<longrightarrow>
        (\<exists>p. comment_patterns r = Inr p
           \<and> total_comments p = length (cleaned_comments cs))
        \<and> (\<forall>s. sentiment_analysis r = Inr s \<longrightarrow>
             sentiment_total_comments s
               = length (filter (\<lambda>c. \<not> too_short c) (cleaned_comments cs)))
        \<and> (\<forall>e. emotion_analysis r = Inr e \<longrightarrow>
             sum_list (map snd (emotion_distribution e))
               = length (filter (\<lambda>c. \<not> too_short c) (cleaned_comments cs)))"
  proof (intro allI impI)
    fix r
    let ?cl = "cleaned_comments cs"
    assume h: "get_comprehensive_analysis a cs = Some (Inr r)"
    then have ne: "?cl \<noteq> []" by (rule get_comprehensive_analysis_Inr)
    from get_comprehensive_analysis_eq [OF ne, of a] h
    have sa: "analyze_sentiment a ?cl = Some (sentiment_analysis r)"
      and ea: "analyze_emotions a ?cl = Some (emotion_analysis r)"
      and cp: "analyze_comment_patterns ?cl = Some (comment_patterns r)"
      by auto
    from cp analyze_comment_patterns_eq [OF ne]
    have 1: "\<exists>p. comment_patterns r = Inr p \<and> total_comments p = length ?cl"
      by (cases "comment_patterns r") auto
    have 2: "\<forall>s. sentiment_analysis r = Inr s \<longrightarrow>
             sentiment_total_comments s = length (filter (\<lambda>c. \<not> too_short c) ?cl)"
    proof (intro allI impI)
      fix s
      assume "sentiment_analysis r = Inr s"
      with sa have v: "analyze_sentiment a ?cl = Some (Inr s)" by simp
      from analyze_sentiment_valid [OF analyze_sentiment_Inr [OF v], of a] v
      show "sentiment_total_comments s = length (filter (\<lambda>c. \<not> too_short c) ?cl)"
        by (auto simp: scored_sentiments_def)
    qed
    have 3: "\<forall>e. emotion_analysis r = Inr e \<longrightarrow>
             sum_list (map snd (emotion_distribution e))
               = length (filter (\<lambda>c. \<not> too_short c) ?cl)"
    proof (intro allI impI)
      fix e
      assume "emotion_analysis r = Inr e"
      with ea have v: "analyze_emotions a ?cl = Some (Inr e)" by simp
      from analyze_emotions_valid [OF analyze_emotions_Inr [OF v], of a] v
      show "sum_list (map snd (emotion_distribution e))
               = length (filter (\<lambda>c. \<not> too_short c) ?cl)"
        by (auto simp: emotions_of_def Counter_sum)
    qed
    from 1 2 3 show "(\<exists>p. comment_patterns r = Inr p
           \<and> total_comments p = length (cleaned_comments cs))
        \<and> (\<forall>s. sentiment_analysis r = Inr s \<longrightarrow>
             sentiment_total_comments s
               = length (filter (\<lambda>c. \<not> too_short c) (cleaned_comments cs)))
        \<and> (\<forall>e. emotion_analysis r = Inr e \<longrightarrow>
             sum_list (map snd (emotion_distribution e))
               = length (filter (\<lambda>c. \<not> too_short c) (cleaned_comments cs)))"
      by blast
  qed
  have s: "scored_sentiments a (xs @ c # ys) = scored_sentiments a (xs @ ys)"
    using assms by (simp add: scored_sentiments_def)
  have e: "emotions_of a (xs @ c # ys) = emotions_of a (xs @ ys)"
    using assms by (simp add: emotions_of_def)
  have t: "xs @ ys \<noteq> [] \<longrightarrow>
        analyze_sentiment a (xs @ c # ys) = analyze_sentiment a (xs @ ys)
        \<and> analyze_emotions a (xs @ c # ys) = analyze_emotions a (xs @ ys)"
    unfolding analyze_sentiment_def analyze_emotions_def s e by simp
  have ne: "xs @ c # ys \<noteq> []" by simp
  have mn: "Min (set (map length (xs @ c # ys))) \<le> length c"
    by (rule Min_le) auto
  have mx: "length c \<le> Max (set (map length (xs @ c # ys)))"
    by (rule Max_ge) auto
  have sm: "sum_list (map length (xs @ c # ys)) = sum_list (map length (xs @ ys)) + length c"
    by simp
  have ln: "length (xs @ c # ys) = length (xs @ ys) + 1" by simp
  have p: "\<exists>p. analyze_comment_patterns (xs @ c # ys) = Some (Inr p)
          \<and> total_comments p = length (xs @ ys) + 1
          \<and> shortest_comment p \<le> length c \<and> length c \<le> longest_comment p
          \<and> average_length p =
              py_round (of_nat (sum_list (map length (xs @ ys)) + length c)
                          / of_nat (length (xs @ ys) + 1)) 2
          \<and> median_length p =
              sort (map length (xs @ c # ys)) ! (length (xs @ c # ys) div 2)
          \<and> exclamation_percentage p =
              py_round (of_nat (count_with (CHR ''!'') (xs @ ys) + (if CHR ''!'' \<in> set c then 1 else 0))
                          / of_nat (length (xs @ ys) + 1) * 100) 2
          \<and> question_percentage p =
              py_round (of_nat (count_with (CHR ''?'') (xs @ ys) + (if CHR ''?'' \<in> set c then 1 else 0))
                          / of_nat (length (xs @ ys) + 1) * 100) 2
          \<and> mention_percentage p =
              py_round (of_nat (count_with (CHR ''@'') (xs @ ys) + (if CHR ''@'' \<in> set c then 1 else 0))
                          / of_nat (length (xs @ ys) + 1) * 100) 2"
    unfolding analyze_comment_patterns_eq [OF ne]
    using mn mx by (simp only: sm ln count_with_insert) simp
  from s e t p pipeline show ?thesis by blast
qed

theorem short_comment_tallies_witness:
  "too_short ''ok''
   \<and> analyze_sentiment heuristic_analyzer [''I love it!'', ''ok'']
     = analyze_sentiment heuristic_analyzer [''I love it!'']
   \<and> (\<exists>p. analyze_comment_patterns [''I love it!'', ''ok''] = Some (Inr p)
          \<and> total_comments p = 2 \<and> shortest_comment p \<le> 2)"
proof -
  have t: "too_short ''ok''" by code_simp
  from short_comment_tallies [OF t, of heuristic_analyzer "[''I love it!'']" "[]" "[]"] t
  show ?thesis by (auto simp: numeral_2_eq_2)
qed

section \<open>Two runs of the pipeline\<close>






section \<open>Keywords\<close>

lemma count_list_filter: "count_list (filter P xs) w = (if P w then count_list xs w else 0)"
  by (induction xs) auto

lemma count_list_concat_filter:
  "P w \<Longrightarrow> count_list (concat (map (\<lambda>c. filter P (f c)) cs)) w = count_list (concat (map f cs)) w"
  by (induction cs) (auto simp: count_list_filter)

lemma set_all_words:
  "set (all_words a cs)
   = {w \<in> set (concat (map (\<lambda>c. tokenize a (clean_text (lower c))) cs)). keep_word a w}"
  by (auto simp: all_words_def)

lemma count_all_words:
  "keep_word a w \<Longrightarrow>
     count_list (all_words a cs) w
     = count_list (concat (map (\<lambda>c. tokenize a (clean_text (lower c))) cs)) w"
  unfolding all_words_def by (rule count_list_concat_filter)

lemma sorted_most_common: "sorted_wrt (\<lambda>x y. snd y \<le> snd x) (sort_key (\<lambda>(w, c). - int c) counts)"
proof -
  have "sorted (map (\<lambda>(w, c). - int c) (sort_key (\<lambda>(w, c). - int c) counts))"
    by (rule sorted_sort_key)
  then show ?thesis
    by (simp add: sorted_map case_prod_beta)
qed

lemma most_common_sorted: "sorted_wrt (\<lambda>x y. snd y \<le> snd x) (most_common n counts)"
  unfolding most_common_def using sorted_most_common by (rule sorted_wrt_take)

lemma most_common_subset: "set (most_common n counts) \<subseteq> set counts"
  unfolding most_common_def using set_take_subset [of n "sort_key (\<lambda>(w, c). - int c) counts"] by simp

lemma most_common_length: "length (most_common n counts) = min n (length counts)"
  by (simp add: most_common_def min.commute)

lemma most_common_distinct:
  "distinct (map fst counts) \<Longrightarrow> distinct (map fst (most_common n counts))"
proof -
  assume d: "distinct (map fst counts)"
  then have "distinct counts" "inj_on fst (set counts)" by (auto simp: distinct_map)
  then have "distinct (map fst (sort_key (\<lambda>(w, c). - int c) counts))"
    by (simp add: distinct_map)
  then show ?thesis
    unfolding most_common_def take_map [symmetric] by (rule distinct_take)
qed

lemma most_common_top:
  assumes "x \<in> set counts" "x \<notin> set (most_common n counts)" "y \<in> set (most_common n counts)"
  shows "snd x \<le> snd y"
proof -
  let ?s = "sort_key (\<lambda>(w, c). - int c) counts"
  have "sorted_wrt (\<lambda>x y. snd y \<le> snd x) (take n ?s @ drop n ?s)"
    using sorted_most_common by simp
  then have *: "\<forall>u \<in> set (take n ?s). \<forall>v \<in> set (drop n ?s). snd v \<le> snd u"
    unfolding sorted_wrt_append by blast
  from assms(1) have "x \<in> set (take n ?s @ drop n ?s)" by simp
  with assms(2) have "x \<in> set (drop n ?s)" unfolding set_append most_common_def by blast
  with * assms(3) show ?thesis unfolding most_common_def by blast
qed

lemma keywords_of_report:
  "get_comprehensive_analysis a cs = Some (Inr r) \<Longrightarrow>
     keywords r = extract_keywords a (cleaned_comments cs) 20"
  using get_comprehensive_analysis_eq [of cs a] get_comprehensive_analysis_Inr [of a cs r]
  by (auto simp: default_top_n_def)

lemma keywords_of_endpoint:
  "extract_keywords_only a cs = Success ks \<Longrightarrow> ks = extract_keywords a (cleaned_comments cs) 30"
  by (auto simp: extract_keywords_only_def Let_def split: if_splits)

lemma example_cat:
  "extract_keywords (heuristic_analyzer\<lparr> stop_words := {''the''} \<rparr>)
     [''the cat sat'', ''the cat ran''] default_top_n
   = [\<lparr> word = ''cat'', count = 2 \<rparr>, \<lparr> word = ''sat'', count = 1 \<rparr>,
      \<lparr> word = ''ran'', count = 1 \<rparr>]"
  by code_simp


lemma length_Counter: "length (Counter xs) = card (set xs)"
proof -
  have "length (Counter xs) = length (map fst (Counter xs))" by simp
  also have "\<dots> = card (set (map fst (Counter xs)))"
    using distinct_card [OF Counter_distinct, of xs] by simp
  also have "\<dots> = card (set xs)" by (simp add: Counter_keys)
  finally show ?thesis .
qed

lemma extract_keywords_member:
  "k \<in> set (extract_keywords a cs n) \<longleftrightarrow>
     (word k, count k) \<in> set (most_common n (Counter (all_words a cs)))"
  by (cases k) (auto simp: extract_keywords_def)

lemma map_word_extract_keywords:
  "map word (extract_keywords a cs n) = map fst (most_common n (Counter (all_words a cs)))"
  by (simp add: extract_keywords_def case_prod_beta o_def)

lemma map_count_extract_keywords:
  "map count (extract_keywords a cs n) = map snd (most_common n (Counter (all_words a cs)))"
  by (simp add: extract_keywords_def case_prod_beta o_def)

text \<open>
  Claim C8: keyword extraction keeps exactly the tokens that are alphabetic, longer than
  2 characters and not stop words. It returns at most \<open>top_n\<close> keywords (all of them
  when there are fewer), each a kept token with the number of its occurrences,
  no word twice, ordered by descending count, and no word left out occurs more often
  than a word returned. The pipeline asks for 20 keywords and the keywords endpoint for
  30. On \<open>["the cat sat", "the cat ran"]\<close> with the stop words \<open>{the}\<close> the result is
  \<open>cat\<close> with count 2, then \<open>sat\<close> and \<open>ran\<close> with count 1 each.
\<close>

theorem keywords_ranked:
  "set (all_words a cs)
     = {w \<in> set (concat (map (\<lambda>c. tokenize a (clean_text (lower c))) cs)).
          isalpha w \<and> 2 < length w \<and> w \<notin> stop_words a}
   \<and> length (extract_keywords a cs n) = min n (card (set (all_words a cs)))
   \<and> (\<forall>k \<in> set (extract_keywords a cs n).
         word k \<in> set (all_words a cs)
         \<and> count k = count_list (concat (map (\<lambda>c. tokenize a (clean_text (lower c))) cs)) (word k))
   \<and> sorted_wrt (\<lambda>x y. count y \<le> count x) (extract_keywords a cs n)
   \<and> distinct (map word (extract_keywords a cs n))
   \<and> (\<forall>w \<in> set (all_words a cs). w \<notin> word ` set (extract_keywords a cs n) \<longrightarrow>
         (\<forall>k \<in> set (extract_keywords a cs n).
            count_list (concat (map (\<lambda>c. tokenize a (clean_text (lower c))) cs)) w \<le> count k))
   \<and> (get_comprehensive_analysis a cs = Some (Inr r) \<longrightarrow>
         keywords r = extract_keywords a (cleaned_comments cs) 20)
   \<and> (extract_keywords_only a cs = Success ks \<longrightarrow>
         ks = extract_keywords a (cleaned_comments cs) 30)
   \<and> extract_keywords (heuristic_analyzer\<lparr> stop_words := {''the''} \<rparr>)
         [''the cat sat'', ''the cat ran''] default_top_n
       = [\<lparr> word = ''cat'', count = 2 \<rparr>, \<lparr> word = ''sat'', count = 1 \<rparr>,
          \<lparr> word = ''ran'', count = 1 \<rparr>]"
proof -
  let ?toks = "concat (map (\<lambda>c. tokenize a (clean_text (lower c))) cs)"
  let ?W = "all_words a cs"
  let ?top = "most_common n (Counter ?W)"
  let ?ks = "extract_keywords a cs n"
  have 1: "set ?W = {w \<in> set ?toks. isalpha w \<and> 2 < length w \<and> w \<notin> stop_words a}"
    by (auto simp: set_all_words keep_word_def)
  have 2: "length ?ks = min n (card (set ?W))"
    by (simp add: extract_keywords_def most_common_length length_Counter)
  have in_top: "w \<in> set ?W \<and> c = count_list ?toks w" if "(w, c) \<in> set ?top" for w c
  proof -
    from that most_common_subset have "(w, c) \<in> set (Counter ?W)" by blast
    then have w: "w \<in> set ?W" and c: "c = count_list ?W w" by (auto simp: Counter_member)
    from w have "keep_word a w" by (simp add: set_all_words)
    with w c show ?thesis by (simp add: count_all_words)
  qed
  have 3: "\<forall>k \<in> set ?ks. word k \<in> set ?W \<and> count k = count_list ?toks (word k)"
    using in_top by (auto simp: extract_keywords_member)
  have 4: "sorted_wrt (\<lambda>x y. count y \<le> count x) ?ks"
    using most_common_sorted [of n "Counter ?W"]
    by (simp add: extract_keywords_def sorted_wrt_map case_prod_beta)
  have 5: "distinct (map word ?ks)"
    unfolding map_word_extract_keywords by (rule most_common_distinct [OF Counter_distinct])
  have 6: "\<forall>w \<in> set ?W. w \<notin> word ` set ?ks \<longrightarrow> (\<forall>k \<in> set ?ks. count_list ?toks w \<le> count k)"
  proof (intro ballI impI)
    fix w k
    assume w: "w \<in> set ?W" and out: "w \<notin> word ` set ?ks" and k: "k \<in> set ?ks"
    from w have x: "(w, count_list ?W w) \<in> set (Counter ?W)" by (simp add: Counter_member)
    have "(w, count_list ?W w) \<notin> set ?top"
    proof
      assume "(w, count_list ?W w) \<in> set ?top"
      then have "\<lparr> word = w, count = count_list ?W w \<rparr> \<in> set ?ks"
        by (simp add: extract_keywords_member)
      then have "w \<in> word ` set ?ks" by force
      with out show False by simp
    qed
    moreover from k have "(word k, count k) \<in> set ?top" by (simp add: extract_keywords_member)
    ultimately have "count_list ?W w \<le> count k"
      using most_common_top [OF x] by fastforce
    moreover from w have "keep_word a w" by (simp add: set_all_words)
    ultimately show "count_list ?toks w \<le> count k" by (simp add: count_all_words)
  qed
  have 7: "get_comprehensive_analysis a cs = Some (Inr r) \<longrightarrow>
         keywords r = extract_keywords a (cleaned_comments cs) 20"
    using keywords_of_report by blast
  have 8: "extract_keywords_only a cs = Success ks \<longrightarrow>
         ks = extract_keywords a (cleaned_comments cs) 30"
    using keywords_of_endpoint by blast
  from 1 2 3 4 5 6 7 8 example_cat show ?thesis by blast
qed

theorem keywords_ranked_witness:
  "length (extract_keywords (heuristic_analyzer\<lparr> stop_words := {''the''} \<rparr>)
             [''the cat sat'', ''the cat ran''] 2) = 2
   \<and> map word (extract_keywords (heuristic_analyzer\<lparr> stop_words := {''the''} \<rparr>)
             [''the cat sat'', ''the cat ran''] default_top_n) = [''cat'', ''sat'', ''ran'']
   \<and> map count (extract_keywords (heuristic_analyzer\<lparr> stop_words := {''the''} \<rparr>)
             [''the cat sat'', ''the cat ran''] default_top_n) = [2, 1, 1]"
proof -
  let ?a = "heuristic_analyzer\<lparr> stop_words := {''the''} \<rparr>"
  let ?cs = "[''the cat sat'', ''the cat ran'']"
  have w: "all_words ?a ?cs = [''cat'', ''sat'', ''cat'', ''ran'']" by code_simp
  have c: "card (set [''cat'', ''sat'', ''cat'', ''ran'']) = 3" by code_simp
  from keywords_ranked [of ?a ?cs 2]
  have "length (extract_keywords ?a ?cs 2) = min 2 (card (set (all_words ?a ?cs)))" by blast
  then have 1: "length (extract_keywords ?a ?cs 2) = 2" unfolding w c by simp
  from keywords_ranked [of ?a ?cs 2]
  have e: "extract_keywords ?a ?cs default_top_n
       = [\<lparr> word = ''cat'', count = 2 \<rparr>, \<lparr> word = ''sat'', count = 1 \<rparr>,
          \<lparr> word = ''ran'', count = 1 \<rparr>]" by blast
  from 1 show ?thesis unfolding e by simp
qed

end
